theory Spec2Isabelle
  imports Main "HOL-Library.Word"
begin

section \<open>The dispatch core of fusekit: \<^verbatim>\<open>include/fusekit/daemon.h\<close>\<close>

text \<open>
  The daemon singleton implements the \<^verbatim>\<open>fuse_operations\<close> callbacks and delegates
  each of them to an entry of the file hierarchy, found by walking the path from the
  root entry. The entries themselves (\<^verbatim>\<open>fusekit/entry.h\<close>), the sentinel
  \<^verbatim>\<open>no_entry\<close>, the path container, the file handle and the locking policy are
  outside this header: the entry interface is a parameter of the model, and every call
  the daemon makes on it is recorded in a log of events.
\<close>

subsection \<open>C types\<close>

type_synonym mode_t = "32 word"
type_synonym dev_t = "64 word"
type_synonym size_t = "64 word"
type_synonym off_t = "64 word"
type_synonym time_t = "64 word"
type_synonym ptr = "64 word"

text \<open>\<^verbatim>\<open>ENOENT\<close> of \<^verbatim>\<open>errno.h\<close>; a C \<^verbatim>\<open>int\<close> result code is an \<open>int\<close>.\<close>

definition ENOENT :: int where
  "ENOENT = 2"

text \<open>\<^verbatim>\<open>struct fuse_file_info\<close>; \<open>fh\<close> is the \<^verbatim>\<open>uint64_t\<close> file handle token.\<close>

record fuse_file_info =
  flags :: int
  fh_old :: "64 word"
  writepage :: int
  direct_io :: bool
  keep_cache :: bool
  fh :: "64 word"
  lock_owner :: "64 word"

record timespec =
  tv_sec :: time_t
  tv_nsec :: "64 word"

record utimbuf =
  actime :: time_t
  modtime :: time_t

subsection \<open>Paths\<close>

text \<open>
  \<^verbatim>\<open>fusekit::path\<close> is a standard sequence container of \<^verbatim>\<open>std::string\<close> segments,
  used here through \<^verbatim>\<open>empty\<close>, \<^verbatim>\<open>begin\<close>/\<^verbatim>\<open>end\<close>, \<^verbatim>\<open>back\<close> and \<^verbatim>\<open>pop_back\<close>.
\<close>

type_synonym path = "string list"

fun split_sep :: "string \<Rightarrow> string list" where
  "split_sep [] = [[]]"
| "split_sep (c # cs) =
     (if c = CHR ''/'' then [] # split_sep cs
      else (case split_sep cs of
              [] \<Rightarrow> [[c]]
            | s # ss \<Rightarrow> (c # s) # ss))"

text \<open>
  Modelled from the spec: the constructor of \<^verbatim>\<open>fusekit::path\<close> from a C string
  (\<^verbatim>\<open>fusekit/path.h\<close> is not among the sources). Given an absolute path string it
  produces the ordered sequence of non-empty segment names, splitting on the path
  separator and discarding empty segments.
\<close>

definition path_of :: "string \<Rightarrow> path" where
  "path_of p = filter (\<lambda>seg. seg \<noteq> []) (split_sep p)"

text \<open>
  \<^verbatim>\<open>back()\<close> and \<^verbatim>\<open>pop_back()\<close> of a standard container have undefined behaviour on
  an empty container; the model returns a fault there.
\<close>

datatype fault = Back_of_empty | Pop_back_of_empty

definition path_back :: "path \<Rightarrow> fault + string" where
  "path_back pa = (if pa = [] then Inl Back_of_empty else Inr (last pa))"

definition path_pop_back :: "path \<Rightarrow> fault + path" where
  "path_pop_back pa = (if pa = [] then Inl Pop_back_of_empty else Inr (butlast pa))"

subsection \<open>Entries\<close>

text \<open>
  A reference to an entry: an entry of the hierarchy, by its address, or the
  function-local static \<^verbatim>\<open>no_entry noent\<close> of \<^verbatim>\<open>find_entry\<close>.
\<close>

datatype 'a entry_ref = Entry 'a | No_entry

text \<open>The methods of \<^verbatim>\<open>fusekit::entry\<close> the daemon calls, with their arguments.\<close>

datatype entry_call =
    E_unlink string
  | E_mknod string mode_t dev_t
  | E_mkdir string mode_t
  | E_rmdir string
  | E_access int
  | E_chmod mode_t
  | E_truncate off_t
  | E_stat ptr
  | E_utimens "timespec list"
  | E_readlink ptr size_t
  | E_symlink string string
  | E_setxattr string ptr size_t int
  | E_getxattr string ptr size_t
  | E_listxattr ptr size_t
  | E_removexattr string

text \<open>The methods that also take the \<^verbatim>\<open>fuse_file_info\<close> by reference.\<close>

datatype entry_fi_call =
    E_open
  | E_release
  | E_flush
  | E_read ptr size_t off_t
  | E_write ptr size_t off_t
  | E_opendir
  | E_readdir ptr ptr off_t
  | E_releasedir

text \<open>
  The entry interface over entry addresses \<open>'a\<close> and the state \<open>'s\<close> of the objects
  behind it: \<open>child_of\<close> is \<^verbatim>\<open>entry::child\<close> (\<open>None\<close> is the null pointer), a lookup
  by the name of a direct child that reads the state and leaves it as it is;
  \<open>call_entry\<close> and \<open>call_entry_fi\<close> are the other virtual methods, which return a
  result code and may change the state (and the \<^verbatim>\<open>fuse_file_info\<close> they are given);
  \<open>delete_handle\<close> is \<^verbatim>\<open>delete\<close> on a \<^verbatim>\<open>file_handle*\<close>.
\<close>

record ('a, 's) entry_iface =
  child_of :: "'s \<Rightarrow> 'a \<Rightarrow> string \<Rightarrow> 'a option"
  call_entry :: "'a entry_ref \<Rightarrow> entry_call \<Rightarrow> 's \<Rightarrow> int \<times> 's"
  call_entry_fi :: "'a entry_ref \<Rightarrow> entry_fi_call \<Rightarrow> fuse_file_info \<Rightarrow> 's \<Rightarrow> int \<times> fuse_file_info \<times> 's"
  delete_handle :: "64 word \<Rightarrow> 's \<Rightarrow> 's"

datatype 'a event =
    Guard_acquired
  | Guard_released
  | Child_lookup 'a string
  | Entry_called "'a entry_ref" entry_call
  | Entry_fi_called "'a entry_ref" entry_fi_call fuse_file_info
  | Handle_deleted "64 word"

record ('a, 's) world =
  nodes :: 's
  events :: "'a event list"

definition emit :: "'a event \<Rightarrow> ('a, 's) world \<Rightarrow> ('a, 's) world" where
  "emit ev w = w\<lparr>events := events w @ [ev]\<rparr>"

text \<open>\<^verbatim>\<open>e->child(name)\<close>: the lookup is logged, the hierarchy is only read.\<close>

definition child :: "('a, 's) entry_iface \<Rightarrow> 'a \<Rightarrow> string \<Rightarrow> ('a, 's) world \<Rightarrow> 'a option \<times> ('a, 's) world" where
  "child I e name w = (child_of I (nodes w) e name, emit (Child_lookup e name) w)"

subsection \<open>The daemon and \<^verbatim>\<open>find_entry\<close>\<close>

text \<open>
  The fields of \<^verbatim>\<open>struct fuse_operations\<close> (\<^verbatim>\<open>fuse.h\<close>), and what a field holds: a
  null pointer (\<open>None\<close>), one of the static member functions of the daemon, or a
  function supplied from elsewhere, by its address.
\<close>

datatype op_name =
    Op_getattr | Op_readlink | Op_getdir | Op_mknod | Op_mkdir | Op_unlink | Op_rmdir
  | Op_symlink | Op_rename | Op_link | Op_chmod | Op_chown | Op_truncate | Op_utime
  | Op_open | Op_read | Op_write | Op_statfs | Op_flush | Op_release | Op_fsync
  | Op_setxattr | Op_getxattr | Op_listxattr | Op_removexattr | Op_opendir | Op_readdir
  | Op_releasedir | Op_fsyncdir | Op_init | Op_destroy | Op_access | Op_create
  | Op_ftruncate | Op_fgetattr | Op_lock | Op_utimens | Op_bmap

datatype fn_ptr = Daemon_fn op_name | Foreign_fn ptr

type_synonym fuse_operations = "op_name \<Rightarrow> fn_ptr option"

record 'a daemon =
  root :: 'a
  ops :: fuse_operations

text \<open>
  The \<^verbatim>\<open>do ... while( ++p != pa.end() )\<close> loop of \<^verbatim>\<open>find_entry\<close>: \<open>e\<close> is the
  current entry, \<open>p\<close> the segment the iterator points at, \<open>ps\<close> the segments after it.
\<close>

fun find_entry_loop :: "('a, 's) entry_iface \<Rightarrow> 'a \<Rightarrow> string \<Rightarrow> path \<Rightarrow> ('a, 's) world \<Rightarrow> 'a entry_ref \<times> ('a, 's) world" where
  "find_entry_loop I e p [] w =
     (case child I e p w of
        (None, w') \<Rightarrow> (No_entry, w')
      | (Some e', w') \<Rightarrow> (Entry e', w'))"
| "find_entry_loop I e p (q # qs) w =
     (case child I e p w of
        (None, w') \<Rightarrow> (No_entry, w')
      | (Some e', w') \<Rightarrow> find_entry_loop I e' q qs w')"

definition find_entry :: "('a, 's) entry_iface \<Rightarrow> 'a daemon \<Rightarrow> path \<Rightarrow> ('a, 's) world \<Rightarrow> 'a entry_ref \<times> ('a, 's) world" where
  "find_entry I d pa w =
     (case pa of
        [] \<Rightarrow> (Entry (root d), w)
      | p # ps \<Rightarrow> find_entry_loop I (root d) p ps w)"

text \<open>
  Following the spec's words: applying all segments in order from a node via child
  lookup reaches the addressed node, or the lookup fails at the first absent segment.
\<close>

fun follow :: "('a \<Rightarrow> string \<Rightarrow> 'a option) \<Rightarrow> 'a \<Rightarrow> path \<Rightarrow> 'a option" where
  "follow ch e [] = Some e"
| "follow ch e (p # ps) = (case ch e p of None \<Rightarrow> None | Some e' \<Rightarrow> follow ch e' ps)"

text \<open>The child lookups in a log, in order: the entry asked and the name asked for.\<close>

fun lookups :: "'a event list \<Rightarrow> ('a \<times> string) list" where
  "lookups [] = []"
| "lookups (Child_lookup e name # evs) = (e, name) # lookups evs"
| "lookups (_ # evs) = lookups evs"


subsection \<open>Construction of the callback table\<close>

text \<open>
  \<^verbatim>\<open>extendOperations\<close>, the hook "run before setting internal handlers": the body of
  \<^verbatim>\<open>daemon::extendOperations\<close> is empty. The constructor's call of it is a virtual call
  made while the object under construction is a \<^verbatim>\<open>daemon\<close>, and \<^verbatim>\<open>instance()\<close> builds
  the only object, \<^verbatim>\<open>static daemon d\<close>, through the private constructor: this body is
  the one that runs, whatever a derived class declares.
\<close>

definition extendOperations :: "fuse_operations \<Rightarrow> fuse_operations" where
  "extendOperations tbl = tbl"

text \<open>
  The constructor, for a value of \<^verbatim>\<open>FUSE_USE_VERSION\<close>: the hook runs on the table,
  then the daemon's own handlers are set. The singleton has static storage, so the
  table starts with every field null.
\<close>

definition daemon_ctor :: "nat \<Rightarrow> 'a \<Rightarrow> 'a daemon" where
  "daemon_ctor FUSE_USE_VERSION r =
     (let ops0 = extendOperations Map.empty;
          ops1 = ops0(Op_getattr \<mapsto> Daemon_fn Op_getattr,
                      Op_readlink \<mapsto> Daemon_fn Op_readlink,
                      Op_opendir \<mapsto> Daemon_fn Op_opendir,
                      Op_readdir \<mapsto> Daemon_fn Op_readdir,
                      Op_releasedir \<mapsto> Daemon_fn Op_releasedir,
                      Op_read \<mapsto> Daemon_fn Op_read,
                      Op_write \<mapsto> Daemon_fn Op_write,
                      Op_truncate \<mapsto> Daemon_fn Op_truncate,
                      Op_open \<mapsto> Daemon_fn Op_open,
                      Op_release \<mapsto> Daemon_fn Op_release,
                      Op_chmod \<mapsto> Daemon_fn Op_chmod,
                      Op_mknod \<mapsto> Daemon_fn Op_mknod,
                      Op_unlink \<mapsto> Daemon_fn Op_unlink,
                      Op_mkdir \<mapsto> Daemon_fn Op_mkdir,
                      Op_rmdir \<mapsto> Daemon_fn Op_rmdir,
                      Op_symlink \<mapsto> Daemon_fn Op_symlink,
                      Op_flush \<mapsto> Daemon_fn Op_flush,
                      Op_setxattr \<mapsto> Daemon_fn Op_setxattr,
                      Op_getxattr \<mapsto> Daemon_fn Op_getxattr,
                      Op_listxattr \<mapsto> Daemon_fn Op_listxattr,
                      Op_removexattr \<mapsto> Daemon_fn Op_removexattr);
          ops2 = (if 24 < FUSE_USE_VERSION then ops1(Op_access \<mapsto> Daemon_fn Op_access) else ops1);
          ops3 = (if 25 < FUSE_USE_VERSION then ops2(Op_utimens \<mapsto> Daemon_fn Op_utimens)
                  else ops2(Op_utime \<mapsto> Daemon_fn Op_utime))
      in \<lparr>root = r, ops = ops3\<rparr>)"

text \<open>The fields the constructor assigns, for a value of \<^verbatim>\<open>FUSE_USE_VERSION\<close>.\<close>

definition core_bound :: "nat \<Rightarrow> op_name list" where
  "core_bound FUSE_USE_VERSION =
     [Op_getattr, Op_readlink, Op_opendir, Op_readdir, Op_releasedir, Op_read, Op_write,
      Op_truncate, Op_open, Op_release, Op_chmod, Op_mknod, Op_unlink, Op_mkdir, Op_rmdir,
      Op_symlink, Op_flush, Op_setxattr, Op_getxattr, Op_listxattr, Op_removexattr]
     @ (if 24 < FUSE_USE_VERSION then [Op_access] else [])
     @ (if 25 < FUSE_USE_VERSION then [Op_utimens] else [Op_utime])"

subsection \<open>The handlers\<close>

text \<open>A call of a virtual method on the entry found; the call is logged.\<close>

definition invoke :: "('a, 's) entry_iface \<Rightarrow> 'a entry_ref \<Rightarrow> entry_call \<Rightarrow> ('a, 's) world \<Rightarrow> int \<times> ('a, 's) world" where
  "invoke I e c w =
     (case call_entry I e c (nodes w) of
        (r, s) \<Rightarrow> (r, emit (Entry_called e c) (w\<lparr>nodes := s\<rparr>)))"

definition invoke_fi :: "('a, 's) entry_iface \<Rightarrow> 'a entry_ref \<Rightarrow> entry_fi_call \<Rightarrow> fuse_file_info \<Rightarrow> ('a, 's) world \<Rightarrow> int \<times> fuse_file_info \<times> ('a, 's) world" where
  "invoke_fi I e c fi w =
     (case call_entry_fi I e c fi (nodes w) of
        (r, fi', s) \<Rightarrow> (r, fi', emit (Entry_fi_called e c fi) (w\<lparr>nodes := s\<rparr>)))"

text \<open>\<^verbatim>\<open>delete reinterpret_cast< file_handle* >(fi->fh)\<close>.\<close>

definition delete_file_handle :: "('a, 's) entry_iface \<Rightarrow> 64 word \<Rightarrow> ('a, 's) world \<Rightarrow> ('a, 's) world" where
  "delete_file_handle I h w = emit (Handle_deleted h) (w\<lparr>nodes := delete_handle I h (nodes w)\<rparr>)"

text \<open>
  Every handler constructs the guard \<^verbatim>\<open>lock guard(instance())\<close> first; the guard is
  released when the handler's scope is left, after the result has been computed.
\<close>

definition unlink :: "('a, 's) entry_iface \<Rightarrow> 'a daemon \<Rightarrow> string \<Rightarrow> ('a, 's) world \<Rightarrow> fault + int \<times> ('a, 's) world" where
  "unlink I d p w =
     (let guard = emit Guard_acquired w;
          parent = path_of p
      in case path_back parent of
           Inl f \<Rightarrow> Inl f
         | Inr to_delete \<Rightarrow>
             (case path_pop_back parent of
                Inl f \<Rightarrow> Inl f
              | Inr parent \<Rightarrow>
                  (case find_entry I d parent guard of
                     (e, w1) \<Rightarrow>
                       (case invoke I e (E_unlink to_delete) w1 of
                          (r, w2) \<Rightarrow> Inr (r, emit Guard_released w2)))))"

definition mknod :: "('a, 's) entry_iface \<Rightarrow> 'a daemon \<Rightarrow> string \<Rightarrow> mode_t \<Rightarrow> dev_t \<Rightarrow> ('a, 's) world \<Rightarrow> fault + int \<times> ('a, 's) world" where
  "mknod I d p m t w =
     (let guard = emit Guard_acquired w;
          parent = path_of p
      in case path_back parent of
           Inl f \<Rightarrow> Inl f
         | Inr to_create \<Rightarrow>
             (case path_pop_back parent of
                Inl f \<Rightarrow> Inl f
              | Inr parent \<Rightarrow>
                  (case find_entry I d parent guard of
                     (e, w1) \<Rightarrow>
                       (case invoke I e (E_mknod to_create m t) w1 of
                          (r, w2) \<Rightarrow> Inr (r, emit Guard_released w2)))))"

definition mkdir :: "('a, 's) entry_iface \<Rightarrow> 'a daemon \<Rightarrow> string \<Rightarrow> mode_t \<Rightarrow> ('a, 's) world \<Rightarrow> fault + int \<times> ('a, 's) world" where
  "mkdir I d p m w =
     (let guard = emit Guard_acquired w;
          parent = path_of p
      in case path_back parent of
           Inl f \<Rightarrow> Inl f
         | Inr to_create \<Rightarrow>
             (case path_pop_back parent of
                Inl f \<Rightarrow> Inl f
              | Inr parent \<Rightarrow>
                  (case find_entry I d parent guard of
                     (e, w1) \<Rightarrow>
                       (case invoke I e (E_mkdir to_create m) w1 of
                          (r, w2) \<Rightarrow> Inr (r, emit Guard_released w2)))))"

definition rmdir :: "('a, 's) entry_iface \<Rightarrow> 'a daemon \<Rightarrow> string \<Rightarrow> ('a, 's) world \<Rightarrow> fault + int \<times> ('a, 's) world" where
  "rmdir I d p w =
     (let guard = emit Guard_acquired w;
          parent = path_of p
      in case path_back parent of
           Inl f \<Rightarrow> Inl f
         | Inr to_create \<Rightarrow>
             (case path_pop_back parent of
                Inl f \<Rightarrow> Inl f
              | Inr parent \<Rightarrow>
                  (case find_entry I d parent guard of
                     (e, w1) \<Rightarrow>
                       (case invoke I e (E_rmdir to_create) w1 of
                          (r, w2) \<Rightarrow> Inr (r, emit Guard_released w2)))))"

definition symlink :: "('a, 's) entry_iface \<Rightarrow> 'a daemon \<Rightarrow> string \<Rightarrow> string \<Rightarrow> ('a, 's) world \<Rightarrow> fault + int \<times> ('a, 's) world" where
  "symlink I d p target w =
     (let guard = emit Guard_acquired w;
          pa = path_of p
      in case path_back pa of
           Inl f \<Rightarrow> Inl f
         | Inr name \<Rightarrow>
             (case path_pop_back pa of
                Inl f \<Rightarrow> Inl f
              | Inr pa \<Rightarrow>
                  (case find_entry I d pa guard of
                     (e, w1) \<Rightarrow>
                       (case invoke I e (E_symlink name target) w1 of
                          (r, w2) \<Rightarrow> Inr (r, emit Guard_released w2)))))"

definition access :: "('a, 's) entry_iface \<Rightarrow> 'a daemon \<Rightarrow> string \<Rightarrow> int \<Rightarrow> ('a, 's) world \<Rightarrow> int \<times> ('a, 's) world" where
  "access I d p perm w =
     (let guard = emit Guard_acquired w
      in case find_entry I d (path_of p) guard of
           (e, w1) \<Rightarrow>
             (case invoke I e (E_access perm) w1 of
                (r, w2) \<Rightarrow> (r, emit Guard_released w2)))"

definition chmod :: "('a, 's) entry_iface \<Rightarrow> 'a daemon \<Rightarrow> string \<Rightarrow> mode_t \<Rightarrow> ('a, 's) world \<Rightarrow> int \<times> ('a, 's) world" where
  "chmod I d p perm w =
     (let guard = emit Guard_acquired w
      in case find_entry I d (path_of p) guard of
           (e, w1) \<Rightarrow>
             (case invoke I e (E_chmod perm) w1 of
                (r, w2) \<Rightarrow> (r, emit Guard_released w2)))"

definition open_op :: "('a, 's) entry_iface \<Rightarrow> 'a daemon \<Rightarrow> string \<Rightarrow> fuse_file_info \<Rightarrow> ('a, 's) world \<Rightarrow> int \<times> fuse_file_info \<times> ('a, 's) world" where
  "open_op I d p fi w =
     (let guard = emit Guard_acquired w
      in case find_entry I d (path_of p) guard of
           (e, w1) \<Rightarrow>
             (case invoke_fi I e E_open fi w1 of
                (r, fi', w2) \<Rightarrow> (r, fi', emit Guard_released w2)))"

text \<open>
  \<^verbatim>\<open>release\<close>: when the entry's result is \<^verbatim>\<open>-ENOENT\<close> and \<^verbatim>\<open>fi->fh\<close> is not null,
  close has been called on a file which is no more; the handle is deleted and
  \<^verbatim>\<open>fi->fh\<close> is set to 0.
\<close>

definition release :: "('a, 's) entry_iface \<Rightarrow> 'a daemon \<Rightarrow> string \<Rightarrow> fuse_file_info \<Rightarrow> ('a, 's) world \<Rightarrow> int \<times> fuse_file_info \<times> ('a, 's) world" where
  "release I d p fi w =
     (let guard = emit Guard_acquired w
      in case find_entry I d (path_of p) guard of
           (e, w1) \<Rightarrow>
             (case invoke_fi I e E_release fi w1 of
                (err, fi1, w2) \<Rightarrow>
                  if err = - ENOENT \<and> fh fi1 \<noteq> 0
                  then (err, fi1\<lparr>fh := 0\<rparr>, emit Guard_released (delete_file_handle I (fh fi1) w2))
                  else (err, fi1, emit Guard_released w2)))"

definition flush :: "('a, 's) entry_iface \<Rightarrow> 'a daemon \<Rightarrow> string \<Rightarrow> fuse_file_info \<Rightarrow> ('a, 's) world \<Rightarrow> int \<times> fuse_file_info \<times> ('a, 's) world" where
  "flush I d p fi w =
     (let guard = emit Guard_acquired w
      in case find_entry I d (path_of p) guard of
           (e, w1) \<Rightarrow>
             (case invoke_fi I e E_flush fi w1 of
                (r, fi', w2) \<Rightarrow> (r, fi', emit Guard_released w2)))"

definition truncate :: "('a, 's) entry_iface \<Rightarrow> 'a daemon \<Rightarrow> string \<Rightarrow> off_t \<Rightarrow> ('a, 's) world \<Rightarrow> int \<times> ('a, 's) world" where
  "truncate I d p offset w =
     (let guard = emit Guard_acquired w
      in case find_entry I d (path_of p) guard of
           (e, w1) \<Rightarrow>
             (case invoke I e (E_truncate offset) w1 of
                (r, w2) \<Rightarrow> (r, emit Guard_released w2)))"

definition getattr :: "('a, 's) entry_iface \<Rightarrow> 'a daemon \<Rightarrow> string \<Rightarrow> ptr \<Rightarrow> ('a, 's) world \<Rightarrow> int \<times> ('a, 's) world" where
  "getattr I d p stbuf w =
     (let guard = emit Guard_acquired w
      in case find_entry I d (path_of p) guard of
           (e, w1) \<Rightarrow>
             (case invoke I e (E_stat stbuf) w1 of
                (r, w2) \<Rightarrow> (r, emit Guard_released w2)))"

definition read :: "('a, 's) entry_iface \<Rightarrow> 'a daemon \<Rightarrow> string \<Rightarrow> ptr \<Rightarrow> size_t \<Rightarrow> off_t \<Rightarrow> fuse_file_info \<Rightarrow> ('a, 's) world \<Rightarrow> int \<times> fuse_file_info \<times> ('a, 's) world" where
  "read I d p buf sz offset fi w =
     (let guard = emit Guard_acquired w
      in case find_entry I d (path_of p) guard of
           (e, w1) \<Rightarrow>
             (case invoke_fi I e (E_read buf sz offset) fi w1 of
                (r, fi', w2) \<Rightarrow> (r, fi', emit Guard_released w2)))"

definition write_op :: "('a, 's) entry_iface \<Rightarrow> 'a daemon \<Rightarrow> string \<Rightarrow> ptr \<Rightarrow> size_t \<Rightarrow> off_t \<Rightarrow> fuse_file_info \<Rightarrow> ('a, 's) world \<Rightarrow> int \<times> fuse_file_info \<times> ('a, 's) world" where
  "write_op I d p src sz offset fi w =
     (let guard = emit Guard_acquired w
      in case find_entry I d (path_of p) guard of
           (e, w1) \<Rightarrow>
             (case invoke_fi I e (E_write src sz offset) fi w1 of
                (r, fi', w2) \<Rightarrow> (r, fi', emit Guard_released w2)))"

definition opendir :: "('a, 's) entry_iface \<Rightarrow> 'a daemon \<Rightarrow> string \<Rightarrow> fuse_file_info \<Rightarrow> ('a, 's) world \<Rightarrow> int \<times> fuse_file_info \<times> ('a, 's) world" where
  "opendir I d p fi w =
     (let guard = emit Guard_acquired w
      in case find_entry I d (path_of p) guard of
           (e, w1) \<Rightarrow>
             (case invoke_fi I e E_opendir fi w1 of
                (r, fi', w2) \<Rightarrow> (r, fi', emit Guard_released w2)))"

definition readdir :: "('a, 's) entry_iface \<Rightarrow> 'a daemon \<Rightarrow> string \<Rightarrow> ptr \<Rightarrow> ptr \<Rightarrow> off_t \<Rightarrow> fuse_file_info \<Rightarrow> ('a, 's) world \<Rightarrow> int \<times> fuse_file_info \<times> ('a, 's) world" where
  "readdir I d p buf filler offset fi w =
     (let guard = emit Guard_acquired w
      in case find_entry I d (path_of p) guard of
           (e, w1) \<Rightarrow>
             (case invoke_fi I e (E_readdir buf filler offset) fi w1 of
                (r, fi', w2) \<Rightarrow> (r, fi', emit Guard_released w2)))"

definition releasedir :: "('a, 's) entry_iface \<Rightarrow> 'a daemon \<Rightarrow> string \<Rightarrow> fuse_file_info \<Rightarrow> ('a, 's) world \<Rightarrow> int \<times> fuse_file_info \<times> ('a, 's) world" where
  "releasedir I d p fi w =
     (let guard = emit Guard_acquired w
      in case find_entry I d (path_of p) guard of
           (e, w1) \<Rightarrow>
             (case invoke_fi I e E_releasedir fi w1 of
                (r, fi', w2) \<Rightarrow> (r, fi', emit Guard_released w2)))"

text \<open>
  \<^verbatim>\<open>utime\<close>: \<^verbatim>\<open>struct timespec tv[2] = { 0 }\<close> zeroes both elements; the seconds are
  then set from the \<^verbatim>\<open>utimbuf\<close>.
\<close>

definition utime :: "('a, 's) entry_iface \<Rightarrow> 'a daemon \<Rightarrow> string \<Rightarrow> utimbuf \<Rightarrow> ('a, 's) world \<Rightarrow> int \<times> ('a, 's) world" where
  "utime I d p buf w =
     (let guard = emit Guard_acquired w;
          tv = replicate 2 \<lparr>tv_sec = 0, tv_nsec = 0\<rparr>;
          tv = tv[0 := (tv ! 0)\<lparr>tv_sec := actime buf\<rparr>];
          tv = tv[1 := (tv ! 1)\<lparr>tv_sec := modtime buf\<rparr>]
      in case find_entry I d (path_of p) guard of
           (e, w1) \<Rightarrow>
             (case invoke I e (E_utimens tv) w1 of
                (r, w2) \<Rightarrow> (r, emit Guard_released w2)))"

definition utimens :: "('a, 's) entry_iface \<Rightarrow> 'a daemon \<Rightarrow> string \<Rightarrow> timespec list \<Rightarrow> ('a, 's) world \<Rightarrow> int \<times> ('a, 's) world" where
  "utimens I d p tv w =
     (let guard = emit Guard_acquired w
      in case find_entry I d (path_of p) guard of
           (e, w1) \<Rightarrow>
             (case invoke I e (E_utimens tv) w1 of
                (r, w2) \<Rightarrow> (r, emit Guard_released w2)))"

definition readlink :: "('a, 's) entry_iface \<Rightarrow> 'a daemon \<Rightarrow> string \<Rightarrow> ptr \<Rightarrow> size_t \<Rightarrow> ('a, 's) world \<Rightarrow> int \<times> ('a, 's) world" where
  "readlink I d p buffer sz w =
     (let guard = emit Guard_acquired w
      in case find_entry I d (path_of p) guard of
           (e, w1) \<Rightarrow>
             (case invoke I e (E_readlink buffer sz) w1 of
                (r, w2) \<Rightarrow> (r, emit Guard_released w2)))"

definition setxattr :: "('a, 's) entry_iface \<Rightarrow> 'a daemon \<Rightarrow> string \<Rightarrow> string \<Rightarrow> ptr \<Rightarrow> size_t \<Rightarrow> int \<Rightarrow> ('a, 's) world \<Rightarrow> int \<times> ('a, 's) world" where
  "setxattr I d p name val sz flgs w =
     (let guard = emit Guard_acquired w
      in case find_entry I d (path_of p) guard of
           (e, w1) \<Rightarrow>
             (case invoke I e (E_setxattr name val sz flgs) w1 of
                (r, w2) \<Rightarrow> (r, emit Guard_released w2)))"

definition getxattr :: "('a, 's) entry_iface \<Rightarrow> 'a daemon \<Rightarrow> string \<Rightarrow> string \<Rightarrow> ptr \<Rightarrow> size_t \<Rightarrow> ('a, 's) world \<Rightarrow> int \<times> ('a, 's) world" where
  "getxattr I d p name val sz w =
     (let guard = emit Guard_acquired w
      in case find_entry I d (path_of p) guard of
           (e, w1) \<Rightarrow>
             (case invoke I e (E_getxattr name val sz) w1 of
                (r, w2) \<Rightarrow> (r, emit Guard_released w2)))"

definition listxattr :: "('a, 's) entry_iface \<Rightarrow> 'a daemon \<Rightarrow> string \<Rightarrow> ptr \<Rightarrow> size_t \<Rightarrow> ('a, 's) world \<Rightarrow> int \<times> ('a, 's) world" where
  "listxattr I d p lst sz w =
     (let guard = emit Guard_acquired w
      in case find_entry I d (path_of p) guard of
           (e, w1) \<Rightarrow>
             (case invoke I e (E_listxattr lst sz) w1 of
                (r, w2) \<Rightarrow> (r, emit Guard_released w2)))"

definition removexattr :: "('a, 's) entry_iface \<Rightarrow> 'a daemon \<Rightarrow> string \<Rightarrow> string \<Rightarrow> ('a, 's) world \<Rightarrow> int \<times> ('a, 's) world" where
  "removexattr I d p name w =
     (let guard = emit Guard_acquired w
      in case find_entry I d (path_of p) guard of
           (e, w1) \<Rightarrow>
             (case invoke I e (E_removexattr name) w1 of
                (r, w2) \<Rightarrow> (r, emit Guard_released w2)))"

subsection \<open>Reading a log\<close>

text \<open>The method calls in a log, in order: the entry called and the call.\<close>

fun entry_calls :: "'a event list \<Rightarrow> ('a entry_ref \<times> entry_call) list" where
  "entry_calls [] = []"
| "entry_calls (Entry_called e c # evs) = (e, c) # entry_calls evs"
| "entry_calls (_ # evs) = entry_calls evs"

text \<open>The file handles deleted in a log, in order.\<close>

fun deleted_handles :: "'a event list \<Rightarrow> 64 word list" where
  "deleted_handles [] = []"
| "deleted_handles (Handle_deleted h # evs) = h # deleted_handles evs"
| "deleted_handles (_ # evs) = deleted_handles evs"

text \<open>
  The lookups of a fail-fast walk from \<open>e\<close>, following the spec's words: each segment in
  order is looked up in the current node, and the first absent one ends the walk.
  \<open>lookup_events\<close> are the events such lookups leave in the log.
\<close>

fun lookup_trail :: "('a \<Rightarrow> string \<Rightarrow> 'a option) \<Rightarrow> 'a \<Rightarrow> path \<Rightarrow> ('a \<times> string) list" where
  "lookup_trail ch e [] = []"
| "lookup_trail ch e (p # ps) = (e, p) # (case ch e p of None \<Rightarrow> [] | Some e' \<Rightarrow> lookup_trail ch e' ps)"

definition lookup_events :: "('a \<times> string) list \<Rightarrow> 'a event list" where
  "lookup_events xs = map (\<lambda>(a, n). Child_lookup a n) xs"

subsection \<open>An example hierarchy\<close>

text \<open>
  A hierarchy over addresses \<open>nat\<close>; its state is the list of edges (parent, name,
  child) together with the list of the file handles that are allocated, and
  \<open>example_child\<close> looks a name up among the edges of an entry.
\<close>

type_synonym example_state = "(nat \<times> string \<times> nat) list \<times> 64 word list"

definition example_child :: "(nat \<times> string \<times> nat) list \<Rightarrow> nat \<Rightarrow> string \<Rightarrow> nat option" where
  "example_child s e name = map_of (map (\<lambda>(a, n, c). ((a, n), c)) s) (e, name)"

text \<open>
  Modelled from the spec: the sentinel \<^verbatim>\<open>no_entry\<close> (\<^verbatim>\<open>fusekit/no_entry.h\<close> is not among
  the sources), whose every operation reports "does not exist". On an entry of the
  example, \<open>unlink\<close> removes the named edge and every other method succeeds; deleting a
  file handle removes it from the allocated ones.
\<close>

definition example_iface :: "(nat, example_state) entry_iface" where
  "example_iface =
     \<lparr>child_of = (\<lambda>s. example_child (fst s)),
      call_entry = (\<lambda>e c s.
        case e of
          No_entry \<Rightarrow> (- ENOENT, s)
        | Entry a \<Rightarrow>
            (case c of
               E_unlink name \<Rightarrow>
                 (if example_child (fst s) a name = None then (- ENOENT, s)
                  else (0, (filter (\<lambda>(a', n, c). (a', n) \<noteq> (a, name)) (fst s), snd s)))
             | _ \<Rightarrow> (0, s))),
      call_entry_fi = (\<lambda>e c fi s.
        case e of
          No_entry \<Rightarrow> (- ENOENT, fi, s)
        | Entry a \<Rightarrow> (0, fi, s)),
      delete_handle = (\<lambda>h s. (fst s, removeAll h (snd s)))\<rparr>"

definition example_daemon :: "nat daemon" where
  "example_daemon = daemon_ctor 27 0"

text \<open>The directories \<^verbatim>\<open>/usr\<close> and \<^verbatim>\<open>/usr/lib\<close>, and one allocated file handle.\<close>

definition example_world :: "(nat, example_state) world" where
  "example_world = \<lparr>nodes = ([(0, ''usr'', 10), (10, ''lib'', 20)], [7]), events = []\<rparr>"

definition example_fi :: fuse_file_info where
  "example_fi = \<lparr>flags = 0, fh_old = 0, writepage = 0, direct_io = False, keep_cache = False,
     fh = 7, lock_owner = 0\<rparr>"

section \<open>Properties\<close>

subsection \<open>The log\<close>

lemma emit_events: "events (emit ev w) = events w @ [ev]"
  by (simp add: emit_def)

lemma emit_nodes: "nodes (emit ev w) = nodes w"
  by (simp add: emit_def)

lemma lookups_append: "lookups (xs @ ys) = lookups xs @ lookups ys"
  by (induction xs rule: lookups.induct) simp_all

lemma lookups_lookup_events: "lookups (lookup_events xs) = xs"
  by (induction xs) (auto simp: lookup_events_def)

lemma entry_calls_append: "entry_calls (xs @ ys) = entry_calls xs @ entry_calls ys"
  by (induction xs rule: entry_calls.induct) simp_all

lemma entry_calls_lookup_events: "entry_calls (lookup_events xs) = []"
  by (induction xs) (auto simp: lookup_events_def)

lemma deleted_handles_append: "deleted_handles (xs @ ys) = deleted_handles xs @ deleted_handles ys"
  by (induction xs rule: deleted_handles.induct) simp_all

lemma deleted_handles_lookup_events: "deleted_handles (lookup_events xs) = []"
  by (induction xs) (auto simp: lookup_events_def)

lemma invoke_fst: "fst (invoke I e c w) = fst (call_entry I e c (nodes w))"
  by (simp add: invoke_def split: prod.splits)

lemma invoke_nodes: "nodes (snd (invoke I e c w)) = snd (call_entry I e c (nodes w))"
  by (simp add: invoke_def emit_def split: prod.splits)

lemma invoke_events: "events (snd (invoke I e c w)) = events w @ [Entry_called e c]"
  by (simp add: invoke_def emit_def split: prod.splits)

lemma invoke_fi_fst: "fst (invoke_fi I e c fi w) = fst (call_entry_fi I e c fi (nodes w))"
  by (simp add: invoke_fi_def split: prod.splits)

lemma invoke_fi_info: "fst (snd (invoke_fi I e c fi w)) = fst (snd (call_entry_fi I e c fi (nodes w)))"
  by (simp add: invoke_fi_def split: prod.splits)

lemma invoke_fi_nodes: "nodes (snd (snd (invoke_fi I e c fi w))) = snd (snd (call_entry_fi I e c fi (nodes w)))"
  by (simp add: invoke_fi_def emit_def split: prod.splits)

lemma invoke_fi_events: "events (snd (snd (invoke_fi I e c fi w))) = events w @ [Entry_fi_called e c fi]"
  by (simp add: invoke_fi_def emit_def split: prod.splits)

lemma delete_file_handle_events: "events (delete_file_handle I h w) = events w @ [Handle_deleted h]"
  by (simp add: delete_file_handle_def emit_def)

lemma delete_file_handle_nodes: "nodes (delete_file_handle I h w) = delete_handle I h (nodes w)"
  by (simp add: delete_file_handle_def emit_def)

subsection \<open>Path resolution\<close>

lemma find_entry_loop_fst:
  "fst (find_entry_loop I e p ps w) =
     (case follow (child_of I (nodes w)) e (p # ps) of None \<Rightarrow> No_entry | Some n \<Rightarrow> Entry n)"
  by (induction ps arbitrary: e p w) (simp_all add: child_def emit_def split: option.splits)

lemma find_entry_loop_nodes: "nodes (snd (find_entry_loop I e p ps w)) = nodes w"
  by (induction ps arbitrary: e p w) (simp_all add: child_def emit_def split: option.splits)

lemma find_entry_loop_events:
  "events (snd (find_entry_loop I e p ps w)) =
     events w @ lookup_events (lookup_trail (child_of I (nodes w)) e (p # ps))"
  by (induction ps arbitrary: e p w)
     (simp_all add: child_def emit_def lookup_events_def split: option.splits)

lemma find_entry_fst:
  "fst (find_entry I d pa w) =
     (case follow (child_of I (nodes w)) (root d) pa of None \<Rightarrow> No_entry | Some n \<Rightarrow> Entry n)"
  by (cases pa) (simp_all add: find_entry_def find_entry_loop_fst del: follow.simps(2))

lemma find_entry_nodes: "nodes (snd (find_entry I d pa w)) = nodes w"
  by (cases pa) (simp_all add: find_entry_def find_entry_loop_nodes)

lemma find_entry_events:
  "events (snd (find_entry I d pa w)) =
     events w @ lookup_events (lookup_trail (child_of I (nodes w)) (root d) pa)"
  by (cases pa) (simp_all add: find_entry_def find_entry_loop_events lookup_events_def del: lookup_trail.simps(2))

lemma trail_resolved:
  "follow ch e pa = Some n \<Longrightarrow> map snd (lookup_trail ch e pa) = pa"
  by (induction pa arbitrary: e) (auto split: option.splits)

lemma trail_absent:
  "i < length pa \<Longrightarrow> follow ch e (take i pa) = Some n \<Longrightarrow> ch n (pa ! i) = None \<Longrightarrow>
     lookup_trail ch e pa = lookup_trail ch e (take i pa) @ [(n, pa ! i)] \<and> follow ch e pa = None"
proof (induction pa arbitrary: e i)
  case Nil
  then show ?case by simp
next
  case (Cons p ps)
  show ?case
  proof (cases i)
    case 0
    with Cons.prems show ?thesis by simp
  next
    case (Suc j)
    with Cons.prems obtain e' where e': "ch e p = Some e'" and f: "follow ch e' (take j ps) = Some n"
      by (auto split: option.splits)
    from Cons.prems Suc have "j < length ps" "ch n (ps ! j) = None" by simp_all
    from Cons.IH[OF this(1) f this(2)] e' Suc show ?thesis by simp
  qed
qed

lemma trail_prefix:
  "map snd (lookup_trail ch e pa) = take (length (lookup_trail ch e pa)) pa"
  by (induction pa arbitrary: e) (auto split: option.splits)

lemma trail_length: "length (lookup_trail ch e pa) \<le> length pa"
  by (induction pa arbitrary: e) (auto split: option.splits)

lemma find_entry_deleted:
  "deleted_handles (events (snd (find_entry I d pa w))) = deleted_handles (events w)"
  by (simp add: find_entry_events deleted_handles_append deleted_handles_lookup_events)

lemma find_entry_calls:
  "entry_calls (events (snd (find_entry I d pa w))) = entry_calls (events w)"
  by (simp add: find_entry_events entry_calls_append entry_calls_lookup_events)

lemma walk_names:
  "\<exists>k\<le>length pa. map snd (lookups (events (snd (find_entry I d pa w)))) = map snd (lookups (events w)) @ take k pa"
proof -
  let ?t = "lookup_trail (child_of I (nodes w)) (root d) pa"
  have "map snd (lookups (events (snd (find_entry I d pa w)))) = map snd (lookups (events w)) @ take (length ?t) pa"
    using trail_prefix[of "child_of I (nodes w)" "root d" pa]
    by (simp add: find_entry_events lookups_append lookups_lookup_events)
  with trail_length[of "child_of I (nodes w)" "root d" pa] show ?thesis by blast
qed

text \<open>
  C5: resolving the empty path (the root path, zero segments) returns the root entry, in
  every state of the hierarchy, also one where the root has no children; no lookup is
  made. The path strings \<^verbatim>\<open>"/"\<close> and \<^verbatim>\<open>""\<close> have zero segments.
\<close>

theorem find_entry_root:
  "find_entry I d [] w = (Entry (root d), w)
   \<and> find_entry I d (path_of ''/'') w = (Entry (root d), w)
   \<and> find_entry I d (path_of []) w = (Entry (root d), w)"
  by (simp add: find_entry_def path_of_def)

theorem find_entry_root_witness:
  "find_entry example_iface example_daemon [] \<lparr>nodes = ([], []), events = []\<rparr>
     = (Entry 0, \<lparr>nodes = ([], []), events = []\<rparr>)"
  using find_entry_root [of example_iface example_daemon "\<lparr>nodes = ([], []), events = []\<rparr>"]
  by (simp add: example_daemon_def daemon_ctor_def)

text \<open>
  C1: when every segment of the path resolves from the root by successive child lookups,
  \<^verbatim>\<open>find_entry\<close> returns exactly the entry reached by following them in segment order,
  looking up the segments in that order; it leaves the hierarchy as it was, and a
  repeated call, or any call in a state with the same hierarchy, returns the same entry.
\<close>

theorem find_entry_resolves:
  assumes "follow (child_of I (nodes w)) (root d) pa = Some n"
  shows "fst (find_entry I d pa w) = Entry n
    \<and> nodes (snd (find_entry I d pa w)) = nodes w
    \<and> map snd (lookups (events (snd (find_entry I d pa w)))) = map snd (lookups (events w)) @ pa
    \<and> fst (find_entry I d pa (snd (find_entry I d pa w))) = Entry n
    \<and> (\<forall>w'. child_of I (nodes w') = child_of I (nodes w) \<longrightarrow> fst (find_entry I d pa w') = Entry n)"
proof -
  have 1: "fst (find_entry I d pa w) = Entry n"
    using assms by (simp add: find_entry_fst)
  have 2: "nodes (snd (find_entry I d pa w)) = nodes w"
    by (rule find_entry_nodes)
  have 3: "map snd (lookups (events (snd (find_entry I d pa w)))) = map snd (lookups (events w)) @ pa"
    using assms by (simp add: find_entry_events lookups_append lookups_lookup_events trail_resolved)
  have 4: "fst (find_entry I d pa w') = Entry n" if "child_of I (nodes w') = child_of I (nodes w)" for w'
    using assms that by (simp add: find_entry_fst)
  from 4[of "snd (find_entry I d pa w)"] 2 have 5: "fst (find_entry I d pa (snd (find_entry I d pa w))) = Entry n"
    by simp
  from 1 2 3 4 5 show ?thesis by blast
qed

lemmas example_defs =
  example_iface_def example_world_def example_daemon_def example_child_def daemon_ctor_def

theorem find_entry_resolves_witness:
  "follow (child_of example_iface (nodes example_world)) (root example_daemon) [''usr'', ''lib''] = Some 20
   \<and> fst (find_entry example_iface example_daemon [''usr'', ''lib''] example_world) = Entry 20
   \<and> fst (find_entry example_iface example_daemon [''usr'', ''lib'']
        (snd (find_entry example_iface example_daemon [''usr'', ''lib''] example_world))) = Entry 20"
proof -
  have h: "follow (child_of example_iface (nodes example_world)) (root example_daemon) [''usr'', ''lib''] = Some 20"
    by (simp add: example_iface_def example_world_def example_daemon_def daemon_ctor_def example_child_def)
  from find_entry_resolves [OF h] h show ?thesis by blast
qed

text \<open>
  C2: when the segments before index \<open>i\<close> resolve to an entry \<open>n\<close> and the lookup of
  segment \<open>i\<close> in \<open>n\<close> returns no entry, \<^verbatim>\<open>find_entry\<close> returns the sentinel
  \<^verbatim>\<open>no_entry\<close>; the lookups it made are those of the segments \<open>0..i\<close>, the last of them
  the failed one, and nothing is looked up for a segment after \<open>i\<close>.
\<close>

theorem find_entry_absent_segment:
  assumes "i < length pa"
    and "follow (child_of I (nodes w)) (root d) (take i pa) = Some n"
    and "child_of I (nodes w) n (pa ! i) = None"
  shows "fst (find_entry I d pa w) = No_entry
    \<and> map snd (lookups (events (snd (find_entry I d pa w)))) = map snd (lookups (events w)) @ take (Suc i) pa
    \<and> last (lookups (events (snd (find_entry I d pa w)))) = (n, pa ! i)
    \<and> length (events (snd (find_entry I d pa w))) = length (events w) + Suc i"
proof -
  let ?ch = "child_of I (nodes w)"
  from trail_absent[OF assms] have t: "lookup_trail ?ch (root d) pa = lookup_trail ?ch (root d) (take i pa) @ [(n, pa ! i)]"
    and f: "follow ?ch (root d) pa = None" by simp_all
  from trail_resolved[OF assms(2)] have names: "map snd (lookup_trail ?ch (root d) (take i pa)) = take i pa" .
  then have "length (lookup_trail ?ch (root d) (take i pa)) = length (take i pa)"
    by (metis length_map)
  with assms(1) have len: "length (lookup_trail ?ch (root d) (take i pa)) = i" by simp
  have 1: "fst (find_entry I d pa w) = No_entry"
    using f by (simp add: find_entry_fst)
  have 2: "map snd (lookups (events (snd (find_entry I d pa w)))) = map snd (lookups (events w)) @ take (Suc i) pa"
    using assms(1) by (simp add: find_entry_events lookups_append lookups_lookup_events t names take_Suc_conv_app_nth)
  have 3: "last (lookups (events (snd (find_entry I d pa w)))) = (n, pa ! i)"
    by (simp add: find_entry_events lookups_append lookups_lookup_events t)
  have 4: "length (events (snd (find_entry I d pa w))) = length (events w) + Suc i"
    by (simp add: find_entry_events lookup_events_def t len)
  from 1 2 3 4 show ?thesis by blast
qed

theorem find_entry_absent_segment_witness:
  "(1::nat) < length [''usr'', ''bin'', ''ls'']
   \<and> follow (child_of example_iface (nodes example_world)) (root example_daemon) (take 1 [''usr'', ''bin'', ''ls'']) = Some 10
   \<and> child_of example_iface (nodes example_world) 10 ([''usr'', ''bin'', ''ls''] ! 1) = None
   \<and> fst (find_entry example_iface example_daemon [''usr'', ''bin'', ''ls''] example_world) = No_entry
   \<and> map snd (lookups (events (snd (find_entry example_iface example_daemon [''usr'', ''bin'', ''ls''] example_world))))
       = [''usr'', ''bin'']"
proof -
  have h1: "(1::nat) < length [''usr'', ''bin'', ''ls'']" by simp
  have h2: "follow (child_of example_iface (nodes example_world)) (root example_daemon) (take 1 [''usr'', ''bin'', ''ls'']) = Some 10"
    by (simp add: example_iface_def example_world_def example_daemon_def daemon_ctor_def example_child_def)
  have h3: "child_of example_iface (nodes example_world) 10 ([''usr'', ''bin'', ''ls''] ! 1) = None"
    by (simp add: example_iface_def example_world_def example_child_def)
  have e: "lookups (events example_world) = []" by (simp add: example_world_def)
  from find_entry_absent_segment [OF h1 h2 h3] h1 h2 h3 e show ?thesis by simp
qed

subsection \<open>The path-splitting handlers\<close>

lemma unlink_on_parent:
  assumes "path_of p = segs @ [name]"
  shows "unlink I d p w =
     Inr (fst (call_entry I (fst (find_entry I d segs (emit Guard_acquired w))) (E_unlink name) (nodes w)),
          emit Guard_released (snd (invoke I (fst (find_entry I d segs (emit Guard_acquired w))) (E_unlink name)
             (snd (find_entry I d segs (emit Guard_acquired w))))))"
  using assms
  by (simp add: unlink_def path_back_def path_pop_back_def case_prod_beta Let_def invoke_fst
      find_entry_nodes emit_nodes)

lemma unlink_on_root:
  "(unlink I d p w = Inl Back_of_empty) = (path_of p = [])"
  "(\<exists>x. unlink I d p w = Inr x) = (path_of p \<noteq> [])"
  by (simp_all add: unlink_def path_back_def path_pop_back_def case_prod_beta Let_def)

lemma mknod_on_parent:
  assumes "path_of p = segs @ [name]"
  shows "mknod I d p m t w =
     Inr (fst (call_entry I (fst (find_entry I d segs (emit Guard_acquired w))) (E_mknod name m t) (nodes w)),
          emit Guard_released (snd (invoke I (fst (find_entry I d segs (emit Guard_acquired w))) (E_mknod name m t)
             (snd (find_entry I d segs (emit Guard_acquired w))))))"
  using assms
  by (simp add: mknod_def path_back_def path_pop_back_def case_prod_beta Let_def invoke_fst
      find_entry_nodes emit_nodes)

lemma mknod_on_root:
  "(mknod I d p m t w = Inl Back_of_empty) = (path_of p = [])"
  "(\<exists>x. mknod I d p m t w = Inr x) = (path_of p \<noteq> [])"
  by (simp_all add: mknod_def path_back_def path_pop_back_def case_prod_beta Let_def)

lemma mkdir_on_parent:
  assumes "path_of p = segs @ [name]"
  shows "mkdir I d p m w =
     Inr (fst (call_entry I (fst (find_entry I d segs (emit Guard_acquired w))) (E_mkdir name m) (nodes w)),
          emit Guard_released (snd (invoke I (fst (find_entry I d segs (emit Guard_acquired w))) (E_mkdir name m)
             (snd (find_entry I d segs (emit Guard_acquired w))))))"
  using assms
  by (simp add: mkdir_def path_back_def path_pop_back_def case_prod_beta Let_def invoke_fst
      find_entry_nodes emit_nodes)

lemma mkdir_on_root:
  "(mkdir I d p m w = Inl Back_of_empty) = (path_of p = [])"
  "(\<exists>x. mkdir I d p m w = Inr x) = (path_of p \<noteq> [])"
  by (simp_all add: mkdir_def path_back_def path_pop_back_def case_prod_beta Let_def)

lemma rmdir_on_parent:
  assumes "path_of p = segs @ [name]"
  shows "rmdir I d p w =
     Inr (fst (call_entry I (fst (find_entry I d segs (emit Guard_acquired w))) (E_rmdir name) (nodes w)),
          emit Guard_released (snd (invoke I (fst (find_entry I d segs (emit Guard_acquired w))) (E_rmdir name)
             (snd (find_entry I d segs (emit Guard_acquired w))))))"
  using assms
  by (simp add: rmdir_def path_back_def path_pop_back_def case_prod_beta Let_def invoke_fst
      find_entry_nodes emit_nodes)

lemma rmdir_on_root:
  "(rmdir I d p w = Inl Back_of_empty) = (path_of p = [])"
  "(\<exists>x. rmdir I d p w = Inr x) = (path_of p \<noteq> [])"
  by (simp_all add: rmdir_def path_back_def path_pop_back_def case_prod_beta Let_def)

lemma symlink_on_parent:
  assumes "path_of p = segs @ [name]"
  shows "symlink I d p target w =
     Inr (fst (call_entry I (fst (find_entry I d segs (emit Guard_acquired w))) (E_symlink name target) (nodes w)),
          emit Guard_released (snd (invoke I (fst (find_entry I d segs (emit Guard_acquired w))) (E_symlink name target)
             (snd (find_entry I d segs (emit Guard_acquired w))))))"
  using assms
  by (simp add: symlink_def path_back_def path_pop_back_def case_prod_beta Let_def invoke_fst
      find_entry_nodes emit_nodes)

lemma symlink_on_root:
  "(symlink I d p target w = Inl Back_of_empty) = (path_of p = [])"
  "(\<exists>x. symlink I d p target w = Inr x) = (path_of p \<noteq> [])"
  by (simp_all add: symlink_def path_back_def path_pop_back_def case_prod_beta Let_def)

text \<open>
  C3: for a path whose segments are \<open>segs\<close> followed by a final segment \<open>name\<close>, each
  of \<^verbatim>\<open>unlink\<close>, \<^verbatim>\<open>mknod\<close>, \<^verbatim>\<open>mkdir\<close>, \<^verbatim>\<open>rmdir\<close> and \<^verbatim>\<open>symlink\<close> resolves \<open>segs\<close>,
  calls the corresponding method on the entry found with \<open>name\<close> as its name argument,
  returns that method's result and leaves the hierarchy in the state that method
  produced; the only lookups are those of the walk over \<open>segs\<close>, so the final segment
  is never looked up.
\<close>

theorem splitting_verbs_dispatch_on_parent:
  assumes "path_of p = segs @ [name]"
  shows "let parent = fst (find_entry I d segs (emit Guard_acquired w));
             walked = snd (find_entry I d segs (emit Guard_acquired w))
         in (\<exists>w'. unlink I d p w = Inr (fst (call_entry I parent (E_unlink name) (nodes w)), w')
            \<and> nodes w' = snd (call_entry I parent (E_unlink name) (nodes w))
            \<and> events w' = events walked @ [Entry_called parent (E_unlink name), Guard_released])
          \<and> (\<exists>w'. mknod I d p m t w = Inr (fst (call_entry I parent (E_mknod name m t) (nodes w)), w')
            \<and> nodes w' = snd (call_entry I parent (E_mknod name m t) (nodes w))
            \<and> events w' = events walked @ [Entry_called parent (E_mknod name m t), Guard_released])
          \<and> (\<exists>w'. mkdir I d p m w = Inr (fst (call_entry I parent (E_mkdir name m) (nodes w)), w')
            \<and> nodes w' = snd (call_entry I parent (E_mkdir name m) (nodes w))
            \<and> events w' = events walked @ [Entry_called parent (E_mkdir name m), Guard_released])
          \<and> (\<exists>w'. rmdir I d p w = Inr (fst (call_entry I parent (E_rmdir name) (nodes w)), w')
            \<and> nodes w' = snd (call_entry I parent (E_rmdir name) (nodes w))
            \<and> events w' = events walked @ [Entry_called parent (E_rmdir name), Guard_released])
          \<and> (\<exists>w'. symlink I d p target w = Inr (fst (call_entry I parent (E_symlink name target) (nodes w)), w')
            \<and> nodes w' = snd (call_entry I parent (E_symlink name target) (nodes w))
            \<and> events w' = events walked @ [Entry_called parent (E_symlink name target), Guard_released])
          \<and> (\<exists>k\<le>length segs. map snd (lookups (events walked)) = map snd (lookups (events w)) @ take k segs)"
proof -
  have names: "\<exists>k\<le>length segs. map snd (lookups (events (snd (find_entry I d segs (emit Guard_acquired w)))))
      = map snd (lookups (events w)) @ take k segs"
    using walk_names[of segs I d "emit Guard_acquired w"] by (simp add: emit_events lookups_append)
  show ?thesis
    unfolding Let_def
    using names
    by (simp add: unlink_on_parent[OF assms] mknod_on_parent[OF assms] mkdir_on_parent[OF assms]
        rmdir_on_parent[OF assms] symlink_on_parent[OF assms] emit_events emit_nodes
        invoke_events invoke_nodes find_entry_nodes)
qed

theorem splitting_verbs_dispatch_on_parent_witness:
  "path_of ''/usr/lib'' = [''usr''] @ [''lib'']
   \<and> (\<exists>w'. unlink example_iface example_daemon ''/usr/lib'' example_world = Inr (0, w')
          \<and> nodes w' = ([(0, ''usr'', 10)], [7])
          \<and> events w' = [Guard_acquired, Child_lookup 0 ''usr'',
                Entry_called (Entry 10) (E_unlink ''lib''), Guard_released])"
proof -
  have h: "path_of ''/usr/lib'' = [''usr''] @ [''lib'']"
    by (simp add: path_of_def)
  have f: "find_entry example_iface example_daemon [''usr''] (emit Guard_acquired example_world)
      = (Entry 10, \<lparr>nodes = ([(0, ''usr'', 10), (10, ''lib'', 20)], [7]),
                    events = [Guard_acquired, Child_lookup 0 ''usr'']\<rparr>)"
    by (simp add: find_entry_def child_def emit_def example_defs)
  have c: "call_entry example_iface (Entry 10) (E_unlink ''lib'') (nodes example_world)
      = (0, ([(0, ''usr'', 10)], [7]))"
    by (simp add: example_defs)
  note t = splitting_verbs_dispatch_on_parent [OF h, of example_iface example_daemon example_world,
      unfolded Let_def, THEN conjunct1]
  from t h show ?thesis
    by (simp add: f c)
qed

text \<open>
  C9: each of \<^verbatim>\<open>unlink\<close>, \<^verbatim>\<open>mknod\<close>, \<^verbatim>\<open>mkdir\<close>, \<^verbatim>\<open>rmdir\<close> and \<^verbatim>\<open>symlink\<close> takes the
  last segment with \<^verbatim>\<open>back()\<close> without checking that there is one: the handler has a
  result exactly when the path has at least one segment, and on a path of zero
  segments, such as the root path \<^verbatim>\<open>"/"\<close>, it reaches \<^verbatim>\<open>back()\<close> on an empty sequence.
\<close>

theorem splitting_verbs_need_a_segment:
  "(unlink I d p w = Inl Back_of_empty) = (path_of p = [])
   \<and> (\<exists>x. unlink I d p w = Inr x) = (path_of p \<noteq> [])
   \<and> (mknod I d p m t w = Inl Back_of_empty) = (path_of p = [])
   \<and> (\<exists>x. mknod I d p m t w = Inr x) = (path_of p \<noteq> [])
   \<and> (mkdir I d p m w = Inl Back_of_empty) = (path_of p = [])
   \<and> (\<exists>x. mkdir I d p m w = Inr x) = (path_of p \<noteq> [])
   \<and> (rmdir I d p w = Inl Back_of_empty) = (path_of p = [])
   \<and> (\<exists>x. rmdir I d p w = Inr x) = (path_of p \<noteq> [])
   \<and> (symlink I d p target w = Inl Back_of_empty) = (path_of p = [])
   \<and> (\<exists>x. symlink I d p target w = Inr x) = (path_of p \<noteq> [])
   \<and> path_of ''/'' = []"
proof -
  have slash: "path_of ''/'' = []"
    by (simp add: path_of_def)
  show ?thesis
    by (intro conjI unlink_on_root mknod_on_root mkdir_on_root rmdir_on_root symlink_on_root slash)
qed

theorem splitting_verbs_need_a_segment_witness:
  "unlink example_iface example_daemon ''/'' example_world = Inl Back_of_empty
   \<and> path_of ''/usr/share'' \<noteq> []
   \<and> (\<exists>x. mkdir example_iface example_daemon ''/usr/share'' 493 example_world = Inr x)"
proof -
  have h: "path_of ''/usr/share'' \<noteq> []"
    by (simp add: path_of_def)
  from splitting_verbs_need_a_segment [of example_iface example_daemon "''/''" example_world]
  have 1: "unlink example_iface example_daemon ''/'' example_world = Inl Back_of_empty"
    by simp
  from splitting_verbs_need_a_segment [of example_iface example_daemon "''/usr/share''" example_world, where m = 493] h
  have 2: "\<exists>x. mkdir example_iface example_daemon ''/usr/share'' 493 example_world = Inr x"
    by simp
  from 1 h 2 show ?thesis by blast
qed

subsection \<open>Release\<close>

lemma release_eq:
  assumes "call_entry_fi I (fst (find_entry I d (path_of p) (emit Guard_acquired w))) E_release fi (nodes w) = (err, fi1, s1)"
  shows "release I d p fi w =
     (let e = fst (find_entry I d (path_of p) (emit Guard_acquired w));
          w2 = snd (snd (invoke_fi I e E_release fi (snd (find_entry I d (path_of p) (emit Guard_acquired w)))))
      in if err = - ENOENT \<and> fh fi1 \<noteq> 0
         then (err, fi1\<lparr>fh := 0\<rparr>, emit Guard_released (delete_file_handle I (fh fi1) w2))
         else (err, fi1, emit Guard_released w2))"
proof -
  let ?g = "emit Guard_acquired w"
  let ?e = "fst (find_entry I d (path_of p) ?g)"
  let ?w1 = "snd (find_entry I d (path_of p) ?g)"
  have n: "nodes ?w1 = nodes w" by (simp add: find_entry_nodes emit_nodes)
  have a: "fst (invoke_fi I ?e E_release fi ?w1) = err"
    using assms n by (simp add: invoke_fi_fst)
  have b: "fst (snd (invoke_fi I ?e E_release fi ?w1)) = fi1"
    using assms n by (simp add: invoke_fi_info)
  show ?thesis
    by (simp add: release_def Let_def case_prod_beta a b)
qed

text \<open>
  C4: when the \<^verbatim>\<open>release\<close> method of the entry found reports \<^verbatim>\<open>-ENOENT\<close> and the
  \<^verbatim>\<open>fuse_file_info\<close>, as that method leaves it, carries a non-null file handle token,
  the handler deletes that file handle, once and before the guard is released and the
  handler returns, and the value returned is the entry's own result code.
\<close>

theorem release_reclaims_handle_of_removed_entry:
  assumes "call_entry_fi I (fst (find_entry I d (path_of p) (emit Guard_acquired w))) E_release fi (nodes w) = (err, fi1, s1)"
    and "err = - ENOENT"
    and "fh fi1 \<noteq> 0"
  shows "\<exists>w'. release I d p fi w = (err, fi1\<lparr>fh := 0\<rparr>, w')
     \<and> deleted_handles (events w') = deleted_handles (events w) @ [fh fi1]
     \<and> nodes w' = delete_handle I (fh fi1) s1
     \<and> take 2 (rev (events w')) = [Guard_released, Handle_deleted (fh fi1)]"
proof -
  let ?g = "emit Guard_acquired w"
  let ?e = "fst (find_entry I d (path_of p) ?g)"
  let ?w1 = "snd (find_entry I d (path_of p) ?g)"
  let ?w2 = "snd (snd (invoke_fi I ?e E_release fi ?w1))"
  let ?w' = "emit Guard_released (delete_file_handle I (fh fi1) ?w2)"
  have n: "nodes ?w1 = nodes w" by (simp add: find_entry_nodes emit_nodes)
  have r: "release I d p fi w = (err, fi1\<lparr>fh := 0\<rparr>, ?w')"
    using release_eq[OF assms(1)] assms(2,3) by (simp add: Let_def)
  have d: "deleted_handles (events ?w') = deleted_handles (events w) @ [fh fi1]"
    by (simp add: emit_events delete_file_handle_events invoke_fi_events deleted_handles_append
        find_entry_deleted)
  have s: "nodes ?w' = delete_handle I (fh fi1) s1"
    using assms(1) by (simp add: emit_nodes delete_file_handle_nodes invoke_fi_nodes n)
  have o: "take 2 (rev (events ?w')) = [Guard_released, Handle_deleted (fh fi1)]"
    by (simp add: emit_events delete_file_handle_events)
  from r d s o show ?thesis by blast
qed

theorem release_reclaims_handle_of_removed_entry_witness:
  "unlink example_iface example_daemon ''/usr/lib'' example_world
     = Inr (0, \<lparr>nodes = ([(0, ''usr'', 10)], [7]),
                events = [Guard_acquired, Child_lookup 0 ''usr'',
                          Entry_called (Entry 10) (E_unlink ''lib''), Guard_released]\<rparr>)
   \<and> (\<exists>w'. release example_iface example_daemon ''/usr/lib'' example_fi
            \<lparr>nodes = ([(0, ''usr'', 10)], [7]),
             events = [Guard_acquired, Child_lookup 0 ''usr'',
                       Entry_called (Entry 10) (E_unlink ''lib''), Guard_released]\<rparr>
          = (- 2, example_fi\<lparr>fh := 0\<rparr>, w')
        \<and> deleted_handles (events w') = [7]
        \<and> nodes w' = ([(0, ''usr'', 10)], []))"
proof -
  let ?w1 = "\<lparr>nodes = ([(0, ''usr'', 10 :: nat)], [7 :: 64 word]),
               events = [Guard_acquired, Child_lookup (0 :: nat) ''usr'',
                         Entry_called (Entry 10) (E_unlink ''lib''), Guard_released]\<rparr>"
  have u: "unlink example_iface example_daemon ''/usr/lib'' example_world = Inr (0, ?w1)"
    by (simp add: unlink_def path_of_def path_back_def path_pop_back_def find_entry_def child_def
        invoke_def emit_def example_defs)
  have p: "path_of ''/usr/lib'' = [''usr'', ''lib'']"
    by (simp add: path_of_def)
  have f: "fst (find_entry example_iface example_daemon (path_of ''/usr/lib'') (emit Guard_acquired ?w1)) = No_entry"
    by (simp add: p find_entry_def child_def emit_def example_defs)
  have h1: "call_entry_fi example_iface
      (fst (find_entry example_iface example_daemon (path_of ''/usr/lib'') (emit Guard_acquired ?w1)))
      E_release example_fi (nodes ?w1) = (- ENOENT, example_fi, ([(0, ''usr'', 10)], [7]))"
    by (simp add: f) (simp add: example_iface_def)
  have h2: "- ENOENT = - ENOENT" by simp
  have h3: "fh example_fi \<noteq> 0"
    by (simp add: example_fi_def)
  have d: "deleted_handles (events ?w1) = []" "fh example_fi = 7"
    by (simp_all add: example_fi_def)
  have x: "delete_handle example_iface 7 ([(0, ''usr'', 10)], [7]) = ([(0, ''usr'', 10)], [])"
    by (simp add: example_iface_def)
  from release_reclaims_handle_of_removed_entry [OF h1 h2 h3] u d x show ?thesis
    by (simp add: ENOENT_def) blast
qed

text \<open>
  C10: the \<^verbatim>\<open>release\<close> handler deletes a file handle if and only if the entry's result
  is exactly \<^verbatim>\<open>-ENOENT\<close> and the token \<^verbatim>\<open>fi->fh\<close>, as the entry's method leaves it, is
  not null; it then deletes the handle of that token, so that the state is the one
  \<^verbatim>\<open>delete\<close> produces from the state the entry's method left, and sets the token to 0.
  For every other result code nothing is deleted, the state and the
  \<^verbatim>\<open>fuse_file_info\<close> are as the entry's method left them. The result code is returned as
  it is in every case.
\<close>

theorem release_reclaims_iff:
  assumes "call_entry_fi I (fst (find_entry I d (path_of p) (emit Guard_acquired w))) E_release fi (nodes w) = (err, fi1, s1)"
  shows "\<exists>fi' w'. release I d p fi w = (err, fi', w')
     \<and> (deleted_handles (events w') \<noteq> deleted_handles (events w)) = (err = - ENOENT \<and> fh fi1 \<noteq> 0)
     \<and> deleted_handles (events w') = deleted_handles (events w) @ (if err = - ENOENT \<and> fh fi1 \<noteq> 0 then [fh fi1] else [])
     \<and> nodes w' = (if err = - ENOENT \<and> fh fi1 \<noteq> 0 then delete_handle I (fh fi1) s1 else s1)
     \<and> fi' = (if err = - ENOENT \<and> fh fi1 \<noteq> 0 then fi1\<lparr>fh := 0\<rparr> else fi1)
     \<and> (err \<noteq> - ENOENT \<longrightarrow> fi' = fi1 \<and> nodes w' = s1)"
proof -
  let ?g = "emit Guard_acquired w"
  let ?e = "fst (find_entry I d (path_of p) ?g)"
  let ?w1 = "snd (find_entry I d (path_of p) ?g)"
  let ?w2 = "snd (snd (invoke_fi I ?e E_release fi ?w1))"
  have n: "nodes ?w1 = nodes w"
    by (simp add: find_entry_nodes emit_nodes)
  have d2: "deleted_handles (events ?w2) = deleted_handles (events w)"
    by (simp add: emit_events invoke_fi_events deleted_handles_append find_entry_deleted)
  have n2: "nodes ?w2 = s1"
    using assms by (simp add: invoke_fi_nodes n)
  show ?thesis
  proof (cases "err = - ENOENT \<and> fh fi1 \<noteq> 0")
    case True
    let ?w' = "emit Guard_released (delete_file_handle I (fh fi1) ?w2)"
    have r: "release I d p fi w = (err, fi1\<lparr>fh := 0\<rparr>, ?w')"
      using release_eq[OF assms] True by (simp add: Let_def)
    have d: "deleted_handles (events ?w') = deleted_handles (events w) @ [fh fi1]"
      by (simp add: emit_events delete_file_handle_events deleted_handles_append d2)
    have s: "nodes ?w' = delete_handle I (fh fi1) s1"
      by (simp add: emit_nodes delete_file_handle_nodes n2)
    from r d s True show ?thesis by simp
  next
    case False
    let ?w' = "emit Guard_released ?w2"
    have r: "release I d p fi w = (err, fi1, ?w')"
      using release_eq[OF assms] False by (simp add: Let_def)
    have d: "deleted_handles (events ?w') = deleted_handles (events w)"
      by (simp add: emit_events deleted_handles_append d2)
    have s: "nodes ?w' = s1"
      by (simp add: emit_nodes n2)
    from r d s False show ?thesis by auto
  qed
qed

theorem release_reclaims_iff_witness:
  "(\<exists>w'. release example_iface example_daemon ''/usr/lib'' example_fi example_world = (0, example_fi, w')
      \<and> deleted_handles (events w') = []
      \<and> nodes w' = ([(0, ''usr'', 10), (10, ''lib'', 20)], [7]))
   \<and> (\<exists>w'. release example_iface example_daemon ''/usr/bin'' example_fi example_world
          = (- 2, example_fi\<lparr>fh := 0\<rparr>, w')
      \<and> deleted_handles (events w') = [7]
      \<and> nodes w' = ([(0, ''usr'', 10), (10, ''lib'', 20)], []))"
proof -
  have p: "path_of ''/usr/lib'' = [''usr'', ''lib'']" and q: "path_of ''/usr/bin'' = [''usr'', ''bin'']"
    by (simp_all add: path_of_def)
  have f: "fst (find_entry example_iface example_daemon (path_of ''/usr/lib'') (emit Guard_acquired example_world)) = Entry 20"
    by (simp add: p find_entry_def child_def emit_def example_defs)
  have g: "fst (find_entry example_iface example_daemon (path_of ''/usr/bin'') (emit Guard_acquired example_world)) = No_entry"
    by (simp add: q find_entry_def child_def emit_def example_defs)
  have h: "call_entry_fi example_iface
      (fst (find_entry example_iface example_daemon (path_of ''/usr/lib'') (emit Guard_acquired example_world)))
      E_release example_fi (nodes example_world)
      = (0, example_fi, ([(0, ''usr'', 10), (10, ''lib'', 20)], [7]))"
    by (simp add: f) (simp add: example_iface_def example_world_def)
  have k: "call_entry_fi example_iface
      (fst (find_entry example_iface example_daemon (path_of ''/usr/bin'') (emit Guard_acquired example_world)))
      E_release example_fi (nodes example_world)
      = (- ENOENT, example_fi, ([(0, ''usr'', 10), (10, ''lib'', 20)], [7]))"
    by (simp add: g) (simp add: example_iface_def example_world_def)
  have d: "deleted_handles (events example_world) = []" "fh example_fi = 7"
    by (simp_all add: example_world_def example_fi_def)
  have x: "delete_handle example_iface 7 ([(0, ''usr'', 10), (10, ''lib'', 20)], [7])
      = ([(0, ''usr'', 10), (10, ''lib'', 20)], [])"
    by (simp add: example_iface_def)
  from release_reclaims_iff [OF h] d
  have 1: "\<exists>w'. release example_iface example_daemon ''/usr/lib'' example_fi example_world = (0, example_fi, w')
      \<and> deleted_handles (events w') = []
      \<and> nodes w' = ([(0, ''usr'', 10), (10, ''lib'', 20)], [7])"
    by (simp add: ENOENT_def)
  from release_reclaims_iff [OF k] d x
  have 2: "\<exists>w'. release example_iface example_daemon ''/usr/bin'' example_fi example_world
          = (- 2, example_fi\<lparr>fh := 0\<rparr>, w')
      \<and> deleted_handles (events w') = [7]
      \<and> nodes w' = ([(0, ''usr'', 10), (10, ''lib'', 20)], [])"
    by (simp add: ENOENT_def) blast
  from 1 2 show ?thesis by blast
qed

subsection \<open>The callback table and \<^verbatim>\<open>utime\<close>\<close>

lemma ctor_bound:
  "v \<in> set (core_bound ver) \<Longrightarrow> ops (daemon_ctor ver r) v = Some (Daemon_fn v)"
  by (auto simp add: daemon_ctor_def core_bound_def extendOperations_def Let_def split: if_splits)

lemma ctor_unbound:
  "v \<notin> set (core_bound ver) \<Longrightarrow> ops (daemon_ctor ver r) v = None"
  by (auto simp add: daemon_ctor_def core_bound_def extendOperations_def Let_def split: if_splits)

lemma utime_eq:
  "utime I d p buf w =
     (let tv = [\<lparr>tv_sec = actime buf, tv_nsec = 0\<rparr>, \<lparr>tv_sec = modtime buf, tv_nsec = 0\<rparr>];
          e = fst (find_entry I d (path_of p) (emit Guard_acquired w))
      in (fst (call_entry I e (E_utimens tv) (nodes w)),
          emit Guard_released (snd (invoke I e (E_utimens tv) (snd (find_entry I d (path_of p) (emit Guard_acquired w)))))))"
  by (simp add: utime_def Let_def case_prod_beta invoke_fst find_entry_nodes emit_nodes numeral_2_eq_2)

text \<open>
  C7: the constructor does call the hook before its own assignments, and every field it
  assigns holds the daemon's handler. But the hook that runs is the empty body of
  \<^verbatim>\<open>daemon::extendOperations\<close>, so nothing is ever merged: every field the constructor
  does not assign is null in the final table, \<^verbatim>\<open>rename\<close> for one, and no handler of an
  extension is in the table for any verb.
\<close>

theorem extension_point_merges_nothing:
  "ops (daemon_ctor ver r) v = (if v \<in> set (core_bound ver) then Some (Daemon_fn v) else None)
   \<and> ops (daemon_ctor ver r) v \<noteq> Some (Foreign_fn f)
   \<and> ops (daemon_ctor 27 r) Op_rename = None
   \<and> ops (daemon_ctor 27 r) Op_getattr = Some (Daemon_fn Op_getattr)"
proof -
  have 1: "ops (daemon_ctor ver r) v = (if v \<in> set (core_bound ver) then Some (Daemon_fn v) else None)"
    by (simp add: ctor_bound ctor_unbound)
  then have 2: "ops (daemon_ctor ver r) v \<noteq> Some (Foreign_fn f)"
    by simp
  have 3: "ops (daemon_ctor 27 r) Op_rename = None"
    by (rule ctor_unbound) (simp add: core_bound_def)
  have 4: "ops (daemon_ctor 27 r) Op_getattr = Some (Daemon_fn Op_getattr)"
    by (rule ctor_bound) (simp add: core_bound_def)
  from 1 2 3 4 show ?thesis by blast
qed

text \<open>
  C6: when \<^verbatim>\<open>FUSE_USE_VERSION\<close> is at most 25 the constructor binds \<^verbatim>\<open>utime\<close> and not
  \<^verbatim>\<open>utimens\<close>; the \<^verbatim>\<open>utime\<close> handler calls the \<^verbatim>\<open>utimens\<close> method of the entry found
  with an array of two \<^verbatim>\<open>timespec\<close> values whose seconds are the access and the
  modification time of the \<^verbatim>\<open>utimbuf\<close> and whose nanoseconds are zero; it returns that
  method's result and leaves the hierarchy in the state that method produced.
\<close>

theorem utime_delivers_zeroed_timespec_pair:
  assumes "FUSE_USE_VERSION \<le> 25"
  shows "ops (daemon_ctor FUSE_USE_VERSION r) Op_utime = Some (Daemon_fn Op_utime)
     \<and> ops (daemon_ctor FUSE_USE_VERSION r) Op_utimens = None
     \<and> (let tv = [\<lparr>tv_sec = actime buf, tv_nsec = 0\<rparr>, \<lparr>tv_sec = modtime buf, tv_nsec = 0\<rparr>];
             e = fst (find_entry I d (path_of p) (emit Guard_acquired w))
         in \<exists>w'. utime I d p buf w = (fst (call_entry I e (E_utimens tv) (nodes w)), w')
              \<and> nodes w' = snd (call_entry I e (E_utimens tv) (nodes w))
              \<and> entry_calls (events w') = entry_calls (events w) @ [(e, E_utimens tv)])"
proof -
  have 1: "ops (daemon_ctor FUSE_USE_VERSION r) Op_utime = Some (Daemon_fn Op_utime)"
    using assms by (intro ctor_bound) (simp add: core_bound_def)
  have 2: "ops (daemon_ctor FUSE_USE_VERSION r) Op_utimens = None"
    using assms by (intro ctor_unbound) (simp add: core_bound_def)
  have 3: "let tv = [\<lparr>tv_sec = actime buf, tv_nsec = 0\<rparr>, \<lparr>tv_sec = modtime buf, tv_nsec = 0\<rparr>];
             e = fst (find_entry I d (path_of p) (emit Guard_acquired w))
         in \<exists>w'. utime I d p buf w = (fst (call_entry I e (E_utimens tv) (nodes w)), w')
              \<and> nodes w' = snd (call_entry I e (E_utimens tv) (nodes w))
              \<and> entry_calls (events w') = entry_calls (events w) @ [(e, E_utimens tv)]"
    by (simp add: utime_eq Let_def emit_events emit_nodes invoke_events invoke_nodes find_entry_nodes
        entry_calls_append find_entry_calls)
  from 1 2 3 show ?thesis by blast
qed

theorem utime_delivers_zeroed_timespec_pair_witness:
  "(25::nat) \<le> 25
   \<and> ops (daemon_ctor 25 (0::nat)) Op_utime = Some (Daemon_fn Op_utime)
   \<and> ops (daemon_ctor 25 (0::nat)) Op_utimens = None
   \<and> (\<exists>w'. utime example_iface (daemon_ctor 25 0) ''/usr/lib''
              \<lparr>actime = 1000, modtime = 2000\<rparr> example_world = (0, w')
          \<and> nodes w' = ([(0, ''usr'', 10), (10, ''lib'', 20)], [7])
          \<and> entry_calls (events w')
              = [(Entry 20, E_utimens [\<lparr>tv_sec = 1000, tv_nsec = 0\<rparr>, \<lparr>tv_sec = 2000, tv_nsec = 0\<rparr>])])"
proof -
  have h: "(25::nat) \<le> 25" by simp
  have p: "path_of ''/usr/lib'' = [''usr'', ''lib'']"
    by (simp add: path_of_def)
  have r: "root (daemon_ctor 25 (0::nat)) = 0"
    by (simp add: daemon_ctor_def)
  have f: "fst (find_entry example_iface (daemon_ctor 25 0) (path_of ''/usr/lib'') (emit Guard_acquired example_world)) = Entry 20"
    by (simp add: p find_entry_def child_def emit_def r example_iface_def example_world_def example_child_def)
  have c: "\<And>tv. call_entry example_iface (Entry 20) (E_utimens tv) (nodes example_world)
      = (0, ([(0, ''usr'', 10), (10, ''lib'', 20)], [7]))"
    by (simp add: example_iface_def example_world_def)
  have e: "entry_calls (events example_world) = []"
    by (simp add: example_world_def)
  from utime_delivers_zeroed_timespec_pair [OF h, of "0::nat" "\<lparr>actime = 1000, modtime = 2000\<rparr>"
      example_iface "daemon_ctor 25 0" "''/usr/lib''" example_world]
  show ?thesis
    by (simp add: Let_def f c e)
qed

end
